theory Spec2Isabelle
  imports Complex_Main
begin

section \<open>Identifiers, dates, requests and responses\<close>

text \<open>
  The backend is an Express application over Mongoose documents. A document identifier
  (ObjectId) is only ever compared through \<^verbatim>\<open>toString()\<close>, which is injective, so an
  identifier is a natural number and \<^verbatim>\<open>a.toString() === b.toString()\<close> is equality.
  A date is its number of milliseconds since the epoch; one clock value \<open>now\<close> is handed
  to a handler for all the \<^verbatim>\<open>Date.now()\<close> / \<^verbatim>\<open>new Date()\<close> reads of one request.
  A collection is a finite map from identifiers to documents; \<^verbatim>\<open>findById\<close> is the lookup
  and \<^verbatim>\<open>save\<close> is the update of the map, after the schema's pre-save hook has run.
\<close>

type_synonym object_id = nat
type_synonym date = int
type_synonym 'a collection = "object_id \<rightharpoonup> 'a"

text \<open>
  \<^verbatim>\<open>req.user\<close>, as the \<^verbatim>\<open>auth\<close> middleware has resolved it before a handler runs
  (the middleware and the User model are not part of the sources at hand, so the
  authenticated user is a parameter of every handler).
\<close>

record req_user =
  uid :: object_id
  urole :: string

text \<open>
  A response is the HTTP status (\<^verbatim>\<open>res.json\<close> alone is 200), the \<^verbatim>\<open>message\<close> field and
  the remaining fields of the JSON body, when there are any.
\<close>

datatype 'a response = Response (http_status: nat) (message: string) (payload: "'a option")

subsection \<open>Request sanitising\<close>

text \<open>
  \<^verbatim>\<open>body('content').trim()\<close> of express-validator and the schema option \<^verbatim>\<open>trim: true\<close>
  both strip the white space of JavaScript's \<^verbatim>\<open>\s\<close> from the two ends of a string.
  Strings are lists of 8-bit code units here, so the white space is TAB, LF, VT, FF, CR,
  SPACE and NBSP; \<^verbatim>\<open>isLength\<close> counts code units.
\<close>

definition is_space :: "char \<Rightarrow> bool" where
  "is_space c = (c \<in> set [CHR 0x09, CHR 0x0A, CHR 0x0B, CHR 0x0C, CHR 0x0D, CHR 0x20, CHR 0xA0])"

definition trim :: "string \<Rightarrow> string" where
  "trim s = rev (dropWhile is_space (rev (dropWhile is_space s)))"

section \<open>Complaint (models/Complaint.js)\<close>

record vote =
  user :: object_id
  votedAt :: date

record status_entry =
  status :: string
  changedBy :: "object_id option"
  changedAt :: date
  comment :: "string option"

record resolution =
  description :: "string option"
  resolvedBy :: object_id
  resolvedAt :: date

text \<open>
  The fields of the schema that a handler below reads or writes, and the descriptive
  ones. Location, images, tags, the community reference and the \<^verbatim>\<open>timestamps\<close> pair are
  left out: no handler modelled here touches them.
\<close>

record complaint =
  title :: string
  description :: string
  category :: string
  status :: string
  priority :: string
  submittedBy :: object_id
  assignedTo :: "object_id option"
  upvotes :: "vote list"
  downvotes :: "vote list"
  comments :: "object_id list"
  statusHistory :: "status_entry list"
  resolutionDetails :: "resolution option"

text \<open>
  \<^verbatim>\<open>complaintSchema.pre('save')\<close>. Mongoose marks a path modified when it is assigned a
  value different from the one it holds, so for a document read by \<^verbatim>\<open>findById\<close> and
  assigned at most once, \<^verbatim>\<open>isModified('status')\<close> compares the status with the one
  loaded. The hook's entry has a status and a date only.
\<close>

definition complaint_pre_save :: "bool \<Rightarrow> complaint \<Rightarrow> complaint \<Rightarrow> date \<Rightarrow> complaint" where
  "complaint_pre_save isNew loaded this now =
     (if status this \<noteq> status loaded \<and> \<not> isNew
      then this\<lparr>statusHistory := statusHistory this @
             [\<lparr>status_entry.status = status this, changedBy = None, changedAt = now,
               comment = None\<rparr>]\<rparr>
      else this)"

definition hasUserVoted :: "complaint \<Rightarrow> object_id \<Rightarrow> string option" where
  "hasUserVoted this userId =
     (let hasUpvoted = list_ex (\<lambda>vote. vote.user vote = userId) (upvotes this);
          hasDownvoted = list_ex (\<lambda>vote. vote.user vote = userId) (downvotes this)
      in if hasUpvoted then Some ''upvote''
         else if hasDownvoted then Some ''downvote''
         else None)"

section \<open>Complaint routes (routes/complaints.js)\<close>

subsection \<open>POST /api/complaints/:id/vote\<close>

text \<open>
  The handler's read-modify part (the specification's \<open>toggleVote\<close>): both flags are
  computed first, the user's entries are filtered out of both arrays, and one entry is
  pushed when the requested vote is not the one the user held.
\<close>

definition toggleVote :: "object_id \<Rightarrow> string \<Rightarrow> date \<Rightarrow> complaint \<Rightarrow> complaint" where
  "toggleVote userId voteType now complaint =
     (let hasUpvoted = list_ex (\<lambda>vote. vote.user vote = userId) (upvotes complaint);
          hasDownvoted = list_ex (\<lambda>vote. vote.user vote = userId) (downvotes complaint);
          c1 = complaint\<lparr>upvotes := filter (\<lambda>vote. vote.user vote \<noteq> userId) (upvotes complaint)\<rparr>;
          c2 = c1\<lparr>downvotes := filter (\<lambda>vote. vote.user vote \<noteq> userId) (downvotes c1)\<rparr>
      in if voteType = ''upvote'' \<and> \<not> hasUpvoted
         then c2\<lparr>upvotes := upvotes c2 @ [\<lparr>vote.user = userId, votedAt = now\<rparr>]\<rparr>
         else if voteType = ''downvote'' \<and> \<not> hasDownvoted
         then c2\<lparr>downvotes := downvotes c2 @ [\<lparr>vote.user = userId, votedAt = now\<rparr>]\<rparr>
         else c2)"

record vote_result =
  upvoteCount :: nat
  downvoteCount :: nat
  userVote :: "string option"

definition complaints_post_vote ::
  "complaint collection \<Rightarrow> object_id \<Rightarrow> req_user \<Rightarrow> string \<Rightarrow> date
     \<Rightarrow> complaint collection \<times> vote_result response" where
  "complaints_post_vote db id' user' voteType now =
     (if \<not> (voteType \<in> set [''upvote'', ''downvote''])
      then (db, Response 400 ''Validation failed'' None)
      else case db id' of
        None \<Rightarrow> (db, Response 404 ''Complaint not found'' None)
      | Some loaded \<Rightarrow>
          (let userId = uid user';
               complaint = toggleVote userId voteType now loaded;
               saved = complaint_pre_save False loaded complaint now
           in (db(id' \<mapsto> saved),
               Response 200 ''Vote recorded successfully''
                 (Some \<lparr>upvoteCount = length (upvotes saved),
                        downvoteCount = length (downvotes saved),
                        userVote = hasUserVoted saved userId\<rparr>))))"

subsection \<open>PUT /api/complaints/:id/status\<close>

text \<open>
  The body's \<^verbatim>\<open>status\<close> must be one of the four strings; \<^verbatim>\<open>comment\<close> is optional and
  trimmed when present. The handler assigns the status, pushes its own history entry
  (whose \<^verbatim>\<open>changedAt\<close> is the schema default, the current date), fills the resolution
  record for Resolved, and saves, which runs the schema's hook.
\<close>

definition complaints_put_status ::
  "complaint collection \<Rightarrow> object_id \<Rightarrow> req_user \<Rightarrow> string \<Rightarrow> string option \<Rightarrow> date
     \<Rightarrow> complaint collection \<times> complaint response" where
  "complaints_put_status db id' user' status' comment' now =
     (let comment = map_option trim comment' in
      if \<not> (status' \<in> set [''Submitted'', ''In Progress'', ''Resolved'', ''Rejected'']) \<or>
         (case comment of None \<Rightarrow> False | Some s \<Rightarrow> \<not> (length s \<le> 500))
      then (db, Response 400 ''Validation failed'' None)
      else case db id' of
        None \<Rightarrow> (db, Response 404 ''Complaint not found'' None)
      | Some loaded \<Rightarrow>
          if urole user' \<noteq> ''admin'' \<and> assignedTo loaded \<noteq> Some (uid user')
          then (db, Response 403 ''Not authorized to update this complaint'' None)
          else
            (let c1 = loaded\<lparr>status := status'\<rparr>;
                 c2 = c1\<lparr>statusHistory := statusHistory c1 @
                        [\<lparr>status_entry.status = status', changedBy = Some (uid user'),
                          changedAt = now, comment = comment\<rparr>]\<rparr>;
                 c3 = (if status' = ''Resolved''
                       then c2\<lparr>resolutionDetails :=
                              Some \<lparr>resolution.description = comment, resolvedBy = uid user',
                                    resolvedAt = now\<rparr>\<rparr>
                       else c2);
                 saved = complaint_pre_save False loaded c3 now
             in (db(id' \<mapsto> saved),
                 Response 200 ''Complaint status updated successfully'' (Some saved))))"

section \<open>Comment (models/Comment.js)\<close>

record like =
  user :: object_id
  likedAt :: date

record edit =
  content :: string
  editedAt :: date

text \<open>The \<^verbatim>\<open>reports\<close> array and \<^verbatim>\<open>updatedAt\<close> are left out: no handler below touches them.\<close>

record comment =
  content :: string
  author :: object_id
  complaint :: "object_id option"
  communityPost :: "object_id option"
  parentComment :: "object_id option"
  replies :: "object_id list"
  likes :: "like list"
  isEdited :: bool
  editHistory :: "edit list"
  isDeleted :: bool
  deletedAt :: "date option"
  createdAt :: date

definition hasUserLiked :: "comment \<Rightarrow> object_id \<Rightarrow> bool" where
  "hasUserLiked this userId = list_ex (\<lambda>like. like.user like = userId) (likes this)"

text \<open>
  \<^verbatim>\<open>commentSchema.pre('save')\<close>: when the content differs from the loaded one and the
  document is not new, the hook pushes the content the document holds at save time and
  sets the edited flag.
\<close>

definition comment_pre_save :: "bool \<Rightarrow> comment \<Rightarrow> comment \<Rightarrow> date \<Rightarrow> comment" where
  "comment_pre_save isNew loaded this now =
     (if content this \<noteq> content loaded \<and> \<not> isNew
      then this\<lparr>editHistory := editHistory this @
                   [\<lparr>edit.content = content this, editedAt = now\<rparr>],
                isEdited := True\<rparr>
      else this)"

section \<open>Comment routes (routes/comments.js)\<close>

subsection \<open>PUT /api/comments/:id\<close>

text \<open>
  The checks run in the source's order: body validation (400), lookup (404), author
  (403), age (403). \<^verbatim>\<open>hoursSinceCreation\<close> is the quotient of an integer number of
  milliseconds by 3600000; it is a rational here, and the comparison with 24 agrees with
  the source's on doubles for every difference below \<open>2^53\<close>. Assigning the content runs
  the schema's trim.
\<close>

definition comments_put ::
  "comment collection \<Rightarrow> object_id \<Rightarrow> req_user \<Rightarrow> string \<Rightarrow> date
     \<Rightarrow> comment collection \<times> comment response" where
  "comments_put db id' user' content' now =
     (let body_content = trim content' in
      if \<not> (1 \<le> length body_content \<and> length body_content \<le> 500)
      then (db, Response 400 ''Validation failed'' None)
      else case db id' of
        None \<Rightarrow> (db, Response 404 ''Comment not found'' None)
      | Some loaded \<Rightarrow>
          if author loaded \<noteq> uid user'
          then (db, Response 403 ''Not authorized to edit this comment'' None)
          else
            (let hoursSinceCreation = (of_int (now - createdAt loaded) :: rat) / (1000 * 60 * 60) in
             if hoursSinceCreation > 24
             then (db, Response 403 ''Comment is too old to edit'' None)
             else
               (let oldContent = content loaded;
                    c1 = loaded\<lparr>content := trim body_content\<rparr>;
                    c2 = c1\<lparr>isEdited := True\<rparr>;
                    c3 = c2\<lparr>editHistory := editHistory c2 @
                           [\<lparr>edit.content = oldContent, editedAt = now\<rparr>]\<rparr>;
                    saved = comment_pre_save False loaded c3 now
                in (db(id' \<mapsto> saved),
                    Response 200 ''Comment updated successfully'' (Some saved)))))"

subsection \<open>DELETE /api/comments/:id\<close>

definition comments_delete ::
  "comment collection \<Rightarrow> object_id \<Rightarrow> req_user \<Rightarrow> date
     \<Rightarrow> comment collection \<times> unit response" where
  "comments_delete db id' user' now =
     (case db id' of
        None \<Rightarrow> (db, Response 404 ''Comment not found'' None)
      | Some loaded \<Rightarrow>
          if author loaded \<noteq> uid user' \<and> urole user' \<noteq> ''admin''
          then (db, Response 403 ''Not authorized to delete this comment'' None)
          else
            (let c1 = loaded\<lparr>isDeleted := True\<rparr>;
                 c2 = c1\<lparr>deletedAt := Some now\<rparr>;
                 c3 = c2\<lparr>content := trim ''[This comment has been deleted]''\<rparr>;
                 saved = comment_pre_save False loaded c3 now
             in (db(id' \<mapsto> saved), Response 200 ''Comment deleted successfully'' None)))"

subsection \<open>POST /api/comments/:id/like\<close>

text \<open>The handler's read-modify part (the specification's \<open>toggleLike\<close>).\<close>

definition toggleLike :: "object_id \<Rightarrow> date \<Rightarrow> comment \<Rightarrow> comment" where
  "toggleLike userId now this =
     (let hasLiked = list_ex (\<lambda>like. like.user like = userId) (likes this)
      in if hasLiked
         then this\<lparr>likes := filter (\<lambda>like. like.user like \<noteq> userId) (likes this)\<rparr>
         else this\<lparr>likes := likes this @ [\<lparr>like.user = userId, likedAt = now\<rparr>]\<rparr>)"

record like_result =
  likeCount :: nat
  hasLiked :: bool

definition comments_post_like ::
  "comment collection \<Rightarrow> object_id \<Rightarrow> req_user \<Rightarrow> date
     \<Rightarrow> comment collection \<times> like_result response" where
  "comments_post_like db id' user' now =
     (case db id' of
        None \<Rightarrow> (db, Response 404 ''Comment not found'' None)
      | Some loaded \<Rightarrow>
          (let userId = uid user';
               hasLiked = list_ex (\<lambda>like. like.user like = userId) (likes loaded);
               comment = toggleLike userId now loaded;
               saved = comment_pre_save False loaded comment now
           in (db(id' \<mapsto> saved),
               Response 200 (if hasLiked then ''Comment unliked'' else ''Comment liked'')
                 (Some \<lparr>likeCount = length (likes saved), hasLiked = \<not> hasLiked\<rparr>))))"

section \<open>Community (models/Community.js)\<close>

record member =
  user :: object_id
  joinedAt :: date
  role :: string

text \<open>
  The fields the membership methods and the leave route use. The slug hook of the schema
  fires only when the name is modified or the document is new, which no handler below
  does.
\<close>

record community =
  name :: string
  createdBy :: object_id
  moderators :: "object_id list"
  members :: "member list"
  posts :: "object_id list"

definition isMember :: "community \<Rightarrow> object_id \<Rightarrow> bool" where
  "isMember this userId = list_ex (\<lambda>member. member.user member = userId) (members this)"

definition isModerator :: "community \<Rightarrow> object_id \<Rightarrow> bool" where
  "isModerator this userId =
     (list_ex (\<lambda>moderator. moderator = userId) (moderators this) \<or> createdBy this = userId)"

text \<open>The pushed record takes the schema defaults: the current date and the role member.\<close>

definition addMember :: "community \<Rightarrow> object_id \<Rightarrow> date \<Rightarrow> community" where
  "addMember this userId now =
     (if \<not> isMember this userId
      then this\<lparr>members := members this @
                   [\<lparr>member.user = userId, joinedAt = now, role = ''member''\<rparr>]\<rparr>
      else this)"

definition removeMember :: "community \<Rightarrow> object_id \<Rightarrow> community" where
  "removeMember this userId =
     this\<lparr>members := filter (\<lambda>member. member.user member \<noteq> userId) (members this)\<rparr>"

section \<open>Community routes (routes/communities.js)\<close>

text \<open>
  The User collection is reduced to the one field the routes write, the list of community
  references of each user: \<^verbatim>\<open>$push\<close> appends, \<^verbatim>\<open>$pull\<close> removes every occurrence, and
  \<^verbatim>\<open>findByIdAndUpdate\<close> on a missing user changes nothing.
\<close>

type_synonym user_communities = "object_id list collection"

record member_count =
  memberCount :: nat

subsection \<open>POST /api/communities/:id/join\<close>

definition communities_post_join ::
  "community collection \<Rightarrow> user_communities \<Rightarrow> object_id \<Rightarrow> req_user \<Rightarrow> date
     \<Rightarrow> (community collection \<times> user_communities) \<times> member_count response" where
  "communities_post_join db users id' user' now =
     (case db id' of
        None \<Rightarrow> ((db, users), Response 404 ''Community not found'' None)
      | Some loaded \<Rightarrow>
          if isMember loaded (uid user')
          then ((db, users), Response 400 ''Already a member of this community'' None)
          else
            (let community = addMember loaded (uid user') now;
                 users' = (case users (uid user') of
                             None \<Rightarrow> users
                           | Some cs \<Rightarrow> users(uid user' \<mapsto> cs @ [id']))
             in ((db(id' \<mapsto> community), users'),
                 Response 200 ''Successfully joined the community''
                   (Some \<lparr>memberCount = length (members community)\<rparr>))))"

subsection \<open>POST /api/communities/:id/leave\<close>

definition communities_post_leave ::
  "community collection \<Rightarrow> user_communities \<Rightarrow> object_id \<Rightarrow> req_user
     \<Rightarrow> (community collection \<times> user_communities) \<times> member_count response" where
  "communities_post_leave db users id' user' =
     (case db id' of
        None \<Rightarrow> ((db, users), Response 404 ''Community not found'' None)
      | Some loaded \<Rightarrow>
          if \<not> isMember loaded (uid user')
          then ((db, users), Response 400 ''Not a member of this community'' None)
          else if createdBy loaded = uid user'
          then ((db, users), Response 400 ''Community creator cannot leave the community'' None)
          else
            (let community = removeMember loaded (uid user');
                 users' = (case users (uid user') of
                             None \<Rightarrow> users
                           | Some cs \<Rightarrow> users(uid user' \<mapsto> removeAll id' cs))
             in ((db(id' \<mapsto> community), users'),
                 Response 200 ''Successfully left the community''
                   (Some \<lparr>memberCount = length (members community)\<rparr>))))"

section \<open>Runs of requests\<close>

text \<open>
  A run of vote requests by one user on one complaint: the collection after each call,
  in order.
\<close>

fun vote_calls ::
  "complaint collection \<Rightarrow> object_id \<Rightarrow> req_user \<Rightarrow> (string \<times> date) list
     \<Rightarrow> complaint collection list" where
  "vote_calls db id' user' [] = []"
| "vote_calls db id' user' (call # rest) =
     (let db' = fst (complaints_post_vote db id' user' (fst call) (snd call))
      in db' # vote_calls db' id' user' rest)"

text \<open>Two upvote requests in succession, with nothing in between.\<close>

definition upvote_twice ::
  "complaint collection \<Rightarrow> object_id \<Rightarrow> req_user \<Rightarrow> date \<Rightarrow> date
     \<Rightarrow> complaint collection \<times> vote_result response" where
  "upvote_twice db id' user' t1 t2 =
     complaints_post_vote (fst (complaints_post_vote db id' user' ''upvote'' t1)) id' user' ''upvote'' t2"

text \<open>A run of like requests by one user on one comment: the collection at the end.\<close>

fun like_calls ::
  "comment collection \<Rightarrow> object_id \<Rightarrow> req_user \<Rightarrow> date list \<Rightarrow> comment collection" where
  "like_calls db id' user' [] = db"
| "like_calls db id' user' (now # rest) =
     like_calls (fst (comments_post_like db id' user' now)) id' user' rest"

text \<open>
  The vote types the route's validation lets through, and the state the exclusivity
  invariant forbids: a user with an entry in the upvote array and one in the downvote
  array of the complaint stored under an identifier.
\<close>

definition valid_voteType :: "string \<Rightarrow> bool" where
  "valid_voteType voteType = (voteType = ''upvote'' \<or> voteType = ''downvote'')"

definition in_both_vote_sets :: "object_id \<Rightarrow> complaint \<Rightarrow> bool" where
  "in_both_vote_sets userId c =
     (list_ex (\<lambda>vote. vote.user vote = userId) (upvotes c) \<and>
      list_ex (\<lambda>vote. vote.user vote = userId) (downvotes c))"

definition exclusive_at :: "object_id \<Rightarrow> object_id \<Rightarrow> complaint collection \<Rightarrow> bool" where
  "exclusive_at id' userId db =
     (case db id' of None \<Rightarrow> False | Some c \<Rightarrow> \<not> in_both_vote_sets userId c)"

section \<open>Example documents and requests\<close>

definition ex_citizen :: req_user where
  "ex_citizen = \<lparr>uid = 2, urole = ''citizen''\<rparr>"

definition ex_admin :: req_user where
  "ex_admin = \<lparr>uid = 9, urole = ''admin''\<rparr>"

definition ex_complaint :: complaint where
  "ex_complaint =
     \<lparr>title = ''Broken street light'', description = ''The light at the corner is out'',
      category = ''Electricity'', status = ''Submitted'', priority = ''Medium'',
      submittedBy = 1, assignedTo = None, upvotes = [], downvotes = [], comments = [],
      statusHistory = [], resolutionDetails = None\<rparr>"

text \<open>The same complaint once the citizen has upvoted it, and once downvoted it.\<close>

definition ex_upvoted :: complaint where
  "ex_upvoted = ex_complaint\<lparr>upvotes := [\<lparr>vote.user = 2, votedAt = 50\<rparr>]\<rparr>"

definition ex_downvoted :: complaint where
  "ex_downvoted = ex_complaint\<lparr>downvotes := [\<lparr>vote.user = 2, votedAt = 50\<rparr>]\<rparr>"

text \<open>
  An administrator moves the complaint from Submitted to In Progress and then to
  Resolved: the stored complaint after the two status requests.
\<close>

definition ex_two_transitions :: "complaint option" where
  "ex_two_transitions =
     (let db0 = [5 \<mapsto> ex_complaint];
          db1 = fst (complaints_put_status db0 5 ex_admin ''In Progress'' None 100);
          db2 = fst (complaints_put_status db1 5 ex_admin ''Resolved'' (Some ''fixed'') 200)
      in db2 5)"

text \<open>A comment of the citizen, created at time 0, and the same comment with two likes.\<close>

definition ex_comment :: comment where
  "ex_comment =
     \<lparr>content = ''Fix this soon'', author = 2, complaint = Some 5, communityPost = None,
      parentComment = None, replies = [], likes = [], isEdited = False, editHistory = [],
      isDeleted = False, deletedAt = None, createdAt = 0\<rparr>"

definition ex_liked :: comment where
  "ex_liked = ex_comment\<lparr>likes := [\<lparr>like.user = 2, likedAt = 10\<rparr>, \<lparr>like.user = 3, likedAt = 20\<rparr>]\<rparr>"

text \<open>The author edits the comment one hour after creating it: the stored comment.\<close>

definition ex_edited :: "comment option" where
  "ex_edited = fst (comments_put [7 \<mapsto> ex_comment] 7 ex_citizen ''Fix this today'' 3600000) 7"

text \<open>A community created by the administrator, with the citizen as a second member.\<close>

definition ex_community :: community where
  "ex_community =
     \<lparr>name = ''Ward 12 residents'', createdBy = 9, moderators = [9],
      members = [\<lparr>member.user = 9, joinedAt = 0, role = ''admin''\<rparr>,
                 \<lparr>member.user = 2, joinedAt = 10, role = ''member''\<rparr>],
      posts = []\<rparr>"

section \<open>Vote toggling\<close>

lemma toggleVote_upvotes:
  "upvotes (toggleVote u vt now c) =
     filter (\<lambda>v. vote.user v \<noteq> u) (upvotes c) @
     (if vt = ''upvote'' \<and> \<not> list_ex (\<lambda>v. vote.user v = u) (upvotes c)
      then [\<lparr>vote.user = u, votedAt = now\<rparr>] else [])"
  by (simp add: toggleVote_def Let_def)

lemma toggleVote_downvotes:
  "downvotes (toggleVote u vt now c) =
     filter (\<lambda>v. vote.user v \<noteq> u) (downvotes c) @
     (if vt = ''downvote'' \<and> \<not> list_ex (\<lambda>v. vote.user v = u) (downvotes c)
      then [\<lparr>vote.user = u, votedAt = now\<rparr>] else [])"
  by (simp add: toggleVote_def Let_def)

lemma toggleVote_status: "status (toggleVote u vt now c) = status c"
  by (simp add: toggleVote_def Let_def)

lemma pre_save_unmodified:
  "status this = status loaded \<Longrightarrow> complaint_pre_save isNew loaded this now = this"
  by (simp add: complaint_pre_save_def)

lemma toggleVote_not_in_both: "\<not> in_both_vote_sets u (toggleVote u vt now c)"
  by (auto simp: in_both_vote_sets_def toggleVote_upvotes toggleVote_downvotes list_ex_iff)

lemma post_vote_found:
  assumes "db i = Some c" and "valid_voteType vt"
  shows "fst (complaints_post_vote db i usr vt now) = db(i \<mapsto> toggleVote (uid usr) vt now c)"
  using assms
  by (auto simp: complaints_post_vote_def valid_voteType_def Let_def
        pre_save_unmodified toggleVote_status)

text \<open>
  Claim C1 (vote exclusivity). For every complaint stored under an identifier, every
  user and every sequence of vote requests (each with vote type upvote or downvote) by
  that user on that complaint, after each call the complaint is still stored and the
  user's identifier is in at most one of its upvote and downvote arrays.
\<close>

theorem vote_exclusivity:
  assumes "db i = Some c"
    and "list_all (\<lambda>call. valid_voteType (fst call)) calls"
  shows "list_all (exclusive_at i (uid usr)) (vote_calls db i usr calls)"
  using assms
proof (induction calls arbitrary: db c)
  case Nil
  then show ?case by simp
next
  case (Cons call rest)
  let ?c' = "toggleVote (uid usr) (fst call) (snd call) c"
  let ?db' = "db(i \<mapsto> ?c')"
  from Cons.prems have step: "fst (complaints_post_vote db i usr (fst call) (snd call)) = ?db'"
    by (simp add: post_vote_found)
  have here: "exclusive_at i (uid usr) ?db'"
    by (simp add: exclusive_at_def toggleVote_not_in_both)
  have "?db' i = Some ?c'" by simp
  with Cons.prems have "list_all (exclusive_at i (uid usr)) (vote_calls ?db' i usr rest)"
    by (intro Cons.IH) simp_all
  with step here show ?case by (simp add: Let_def)
qed

theorem vote_exclusivity_witness:
  "list_all (exclusive_at 5 (uid ex_citizen))
     (vote_calls [5 \<mapsto> ex_complaint] 5 ex_citizen
        [(''upvote'', 100), (''downvote'', 200), (''downvote'', 300)])"
  using vote_exclusivity [of "[5 \<mapsto> ex_complaint]" 5 ex_complaint
      "[(''upvote'', 100), (''downvote'', 200), (''downvote'', 300)]" ex_citizen]
  by (simp add: valid_voteType_def)

section \<open>Voting twice\<close>

lemma hasUserVoted_None:
  "hasUserVoted c u = None \<longleftrightarrow>
     \<not> list_ex (\<lambda>v. vote.user v = u) (upvotes c) \<and> \<not> list_ex (\<lambda>v. vote.user v = u) (downvotes c)"
  by (simp add: hasUserVoted_def Let_def)

lemma filter_absent:
  "\<not> list_ex (\<lambda>v. f v = u) xs \<Longrightarrow> filter (\<lambda>v. f v \<noteq> u) xs = xs"
  by (induction xs) auto

lemma toggleVote_up_from_none:
  assumes "hasUserVoted c u = None"
  shows "toggleVote u ''upvote'' now c = c\<lparr>upvotes := upvotes c @ [\<lparr>vote.user = u, votedAt = now\<rparr>]\<rparr>"
  using assms by (simp add: toggleVote_def Let_def hasUserVoted_None filter_absent)

lemma toggleVote_up_off:
  assumes "hasUserVoted c u = None"
  shows "toggleVote u ''upvote'' t2 (c\<lparr>upvotes := upvotes c @ [\<lparr>vote.user = u, votedAt = t1\<rparr>]\<rparr>) = c"
  using assms by (simp add: toggleVote_def Let_def hasUserVoted_None filter_absent)

lemma post_vote_response:
  assumes "db i = Some c" and "valid_voteType vt"
  shows "snd (complaints_post_vote db i usr vt now) =
     Response 200 ''Vote recorded successfully''
       (Some \<lparr>upvoteCount = length (upvotes (toggleVote (uid usr) vt now c)),
              downvoteCount = length (downvotes (toggleVote (uid usr) vt now c)),
              userVote = hasUserVoted (toggleVote (uid usr) vt now c) (uid usr)\<rparr>)"
  using assms
  by (auto simp: complaints_post_vote_def valid_voteType_def Let_def
        pre_save_unmodified toggleVote_status)

text \<open>
  Claim C5 (vote toggle-off round trip), as amended. For every stored complaint and every
  user who holds no vote on it (\<open>hasUserVoted\<close> is null), two upvote requests in
  succession leave the collection as it was, and the second response reports the vote
  state null and the upvote and downvote counts of the complaint before the first call.
\<close>

theorem upvote_twice_from_none:
  assumes "db i = Some c" and "hasUserVoted c (uid usr) = None"
  shows "fst (upvote_twice db i usr t1 t2) = db \<and>
         snd (upvote_twice db i usr t1 t2) =
           Response 200 ''Vote recorded successfully''
             (Some \<lparr>upvoteCount = length (upvotes c), downvoteCount = length (downvotes c),
                    userVote = None\<rparr>)"
proof -
  let ?c1 = "c\<lparr>upvotes := upvotes c @ [\<lparr>vote.user = uid usr, votedAt = t1\<rparr>]\<rparr>"
  let ?db1 = "db(i \<mapsto> ?c1)"
  have v: "valid_voteType ''upvote''" by (simp add: valid_voteType_def)
  have step1: "fst (complaints_post_vote db i usr ''upvote'' t1) = ?db1"
    using assms v by (simp add: post_vote_found toggleVote_up_from_none)
  have undo: "toggleVote (uid usr) ''upvote'' t2 ?c1 = c"
    using assms(2) by (rule toggleVote_up_off)
  have "fst (complaints_post_vote ?db1 i usr ''upvote'' t2) =
          ?db1(i \<mapsto> toggleVote (uid usr) ''upvote'' t2 ?c1)"
    by (rule post_vote_found) (simp_all add: v)
  with assms(1) have db2: "fst (upvote_twice db i usr t1 t2) = db"
    by (simp add: upvote_twice_def step1 undo map_upd_triv)
  have "snd (complaints_post_vote ?db1 i usr ''upvote'' t2) =
     Response 200 ''Vote recorded successfully''
       (Some \<lparr>upvoteCount = length (upvotes (toggleVote (uid usr) ''upvote'' t2 ?c1)),
              downvoteCount = length (downvotes (toggleVote (uid usr) ''upvote'' t2 ?c1)),
              userVote = hasUserVoted (toggleVote (uid usr) ''upvote'' t2 ?c1) (uid usr)\<rparr>)"
    by (rule post_vote_response) (simp_all add: v)
  with assms(2) have "snd (upvote_twice db i usr t1 t2) =
           Response 200 ''Vote recorded successfully''
             (Some \<lparr>upvoteCount = length (upvotes c), downvoteCount = length (downvotes c),
                    userVote = None\<rparr>)"
    by (simp add: upvote_twice_def step1 undo)
  with db2 show ?thesis by simp
qed

theorem upvote_twice_from_none_witness:
  "fst (upvote_twice [5 \<mapsto> ex_complaint] 5 ex_citizen 100 200) = [5 \<mapsto> ex_complaint] \<and>
   snd (upvote_twice [5 \<mapsto> ex_complaint] 5 ex_citizen 100 200) =
     Response 200 ''Vote recorded successfully''
       (Some \<lparr>upvoteCount = 0, downvoteCount = 0, userVote = None\<rparr>)"
  using upvote_twice_from_none [of "[5 \<mapsto> ex_complaint]" 5 ex_complaint ex_citizen 100 200]
  by (simp add: hasUserVoted_def ex_complaint_def)

text \<open>
  Claim C5 as stated, for every complaint and user, fails for a user who already holds a
  vote: after an upvote, two more upvote requests end in the state upvote, not null; after
  a downvote, they end in the state null with the downvote count one lower than before.
\<close>

theorem upvote_twice_counterexample:
  "snd (upvote_twice [5 \<mapsto> ex_upvoted] 5 ex_citizen 100 200) =
     Response 200 ''Vote recorded successfully''
       (Some \<lparr>upvoteCount = 1, downvoteCount = 0, userVote = Some ''upvote''\<rparr>) \<and>
   length (downvotes ex_downvoted) = 1 \<and>
   snd (upvote_twice [5 \<mapsto> ex_downvoted] 5 ex_citizen 100 200) =
     Response 200 ''Vote recorded successfully''
       (Some \<lparr>upvoteCount = 0, downvoteCount = 0, userVote = None\<rparr>)"
  by (simp add: upvote_twice_def complaints_post_vote_def toggleVote_def complaint_pre_save_def
        hasUserVoted_def ex_upvoted_def ex_downvoted_def ex_complaint_def ex_citizen_def Let_def)

section \<open>What a vote leaves alone\<close>

lemma filter_other_user:
  "w \<noteq> u \<Longrightarrow> filter (\<lambda>v. f v \<noteq> u \<and> f v = w) xs = filter (\<lambda>v. f v = w) xs"
  by (rule filter_cong) auto

lemma toggleVote_frame:
  "title (toggleVote u vt now c) = title c \<and>
   description (toggleVote u vt now c) = description c \<and>
   statusHistory (toggleVote u vt now c) = statusHistory c \<and>
   comments (toggleVote u vt now c) = comments c"
  by (simp add: toggleVote_def Let_def)

lemma post_vote_cases:
  assumes "db i = Some c"
  shows "fst (complaints_post_vote db i usr vt now) i = Some c \<or>
         fst (complaints_post_vote db i usr vt now) i = Some (toggleVote (uid usr) vt now c)"
  using assms
  by (auto simp: complaints_post_vote_def Let_def pre_save_unmodified toggleVote_status)

text \<open>
  Claim C10 (vote frame property). For every stored complaint, every voting user and
  every other user \<open>w\<close>, after a vote request the complaint is still stored, the entries
  of \<open>w\<close> in the upvote and in the downvote array are the ones from before (so the
  membership of \<open>w\<close> in either is unchanged), and the title, the description, the status,
  the status history and the comment list are unchanged.
\<close>

theorem vote_frame:
  assumes "db i = Some c" and "w \<noteq> uid usr"
  shows "\<exists>c'. fst (complaints_post_vote db i usr vt now) i = Some c' \<and>
           filter (\<lambda>v. vote.user v = w) (upvotes c') = filter (\<lambda>v. vote.user v = w) (upvotes c) \<and>
           filter (\<lambda>v. vote.user v = w) (downvotes c') = filter (\<lambda>v. vote.user v = w) (downvotes c) \<and>
           list_ex (\<lambda>v. vote.user v = w) (upvotes c') = list_ex (\<lambda>v. vote.user v = w) (upvotes c) \<and>
           list_ex (\<lambda>v. vote.user v = w) (downvotes c') = list_ex (\<lambda>v. vote.user v = w) (downvotes c) \<and>
           title c' = title c \<and> description c' = description c \<and> status c' = status c \<and>
           statusHistory c' = statusHistory c \<and> comments c' = comments c"
proof -
  let ?t = "toggleVote (uid usr) vt now c"
  have up: "filter (\<lambda>v. vote.user v = w) (upvotes ?t) = filter (\<lambda>v. vote.user v = w) (upvotes c)"
    using assms(2) by (simp add: toggleVote_upvotes filter_other_user)
  have down: "filter (\<lambda>v. vote.user v = w) (downvotes ?t) = filter (\<lambda>v. vote.user v = w) (downvotes c)"
    using assms(2) by (simp add: toggleVote_downvotes filter_other_user)
  have ex_up: "list_ex (\<lambda>v. vote.user v = w) (upvotes ?t) = list_ex (\<lambda>v. vote.user v = w) (upvotes c)"
    using assms(2) by (auto simp: toggleVote_upvotes list_ex_iff)
  have ex_down: "list_ex (\<lambda>v. vote.user v = w) (downvotes ?t) = list_ex (\<lambda>v. vote.user v = w) (downvotes c)"
    using assms(2) by (auto simp: toggleVote_downvotes list_ex_iff)
  have "fst (complaints_post_vote db i usr vt now) i = Some c \<or>
        fst (complaints_post_vote db i usr vt now) i = Some ?t"
    using assms(1) by (rule post_vote_cases)
  then show ?thesis
  proof
    assume "fst (complaints_post_vote db i usr vt now) i = Some c"
    then show ?thesis by simp
  next
    assume "fst (complaints_post_vote db i usr vt now) i = Some ?t"
    with up down ex_up ex_down show ?thesis
      by (simp add: toggleVote_frame toggleVote_status)
  qed
qed

theorem vote_frame_witness:
  "\<exists>c'. fst (complaints_post_vote [5 \<mapsto> ex_upvoted] 5 ex_admin ''downvote'' 100) 5 = Some c' \<and>
     filter (\<lambda>v. vote.user v = 2) (upvotes c') = [\<lparr>vote.user = 2, votedAt = 50\<rparr>] \<and>
     filter (\<lambda>v. vote.user v = 2) (downvotes c') = [] \<and>
     list_ex (\<lambda>v. vote.user v = 2) (upvotes c') \<and>
     \<not> list_ex (\<lambda>v. vote.user v = 2) (downvotes c') \<and>
     title c' = ''Broken street light'' \<and> description c' = ''The light at the corner is out'' \<and>
     status c' = ''Submitted'' \<and> statusHistory c' = [] \<and> comments c' = []"
  using vote_frame [of "[5 \<mapsto> ex_upvoted]" 5 ex_upvoted 2 ex_admin "''downvote''" 100]
  by (simp add: ex_upvoted_def ex_complaint_def ex_admin_def)

section \<open>Status history\<close>

text \<open>
  What an accepted status request stores when the status changes: the route's entry,
  then the hook's entry.
\<close>

lemma put_status_change:
  assumes "db i = Some c"
    and "s \<in> set [''Submitted'', ''In Progress'', ''Resolved'', ''Rejected'']"
    and "urole usr = ''admin'' \<or> assignedTo c = Some (uid usr)"
    and "case cm of None \<Rightarrow> True | Some t \<Rightarrow> length (trim t) \<le> 500"
    and "s \<noteq> status c"
  shows "\<exists>c'. fst (complaints_put_status db i usr s cm now) i = Some c' \<and>
           status c' = s \<and>
           statusHistory c' = statusHistory c @
             [\<lparr>status_entry.status = s, changedBy = Some (uid usr), changedAt = now,
               comment = map_option trim cm\<rparr>,
              \<lparr>status_entry.status = s, changedBy = None, changedAt = now, comment = None\<rparr>]"
  using assms
  by (auto simp: complaints_put_status_def complaint_pre_save_def Let_def split: option.splits)

text \<open>
  Claim C2 (status-history recording) does not hold of the code. The route pushes the
  entry with the acting user, and the schema's pre-save hook, seeing the status modified,
  pushes a second entry for the same change, with no \<open>changedBy\<close> and no comment. After
  Submitted, In Progress, Resolved the history has four entries, not two, and every other
  one carries no acting user.
\<close>

theorem status_history_logged_twice:
  "map_option status ex_two_transitions = Some ''Resolved'' \<and>
   map_option (length \<circ> statusHistory) ex_two_transitions = Some 4 \<and>
   map_option (map status_entry.status \<circ> statusHistory) ex_two_transitions =
     Some [''In Progress'', ''In Progress'', ''Resolved'', ''Resolved''] \<and>
   map_option (map changedBy \<circ> statusHistory) ex_two_transitions =
     Some [Some 9, None, Some 9, None]"
  by (simp add: ex_two_transitions_def complaints_put_status_def complaint_pre_save_def
        ex_complaint_def ex_admin_def trim_def is_space_def Let_def)

section \<open>Edit history\<close>

text \<open>Trimming a trimmed string changes nothing.\<close>

lemma dropWhile_rev_not_space:
  assumes "xs = [] \<or> \<not> is_space (hd xs)"
  shows "dropWhile is_space (rev (dropWhile is_space (rev xs))) = rev (dropWhile is_space (rev xs))"
proof (cases "dropWhile is_space (rev xs) = []")
  case True
  show ?thesis unfolding True by simp
next
  case False
  then have "xs \<noteq> []" by auto
  with assms have h: "\<not> is_space (hd xs)" by simp
  have "hd (rev (dropWhile is_space (rev xs))) = last (dropWhile is_space (rev xs))"
    using False by (simp add: hd_rev)
  also have "\<dots> = last (rev xs)"
    using False by (metis append_is_Nil_conv last_appendR takeWhile_dropWhile_id)
  also have "\<dots> = hd xs" using \<open>xs \<noteq> []\<close> by (simp add: last_rev)
  finally have "\<not> is_space (hd (rev (dropWhile is_space (rev xs))))" using h by simp
  then show ?thesis using False
    by (cases "rev (dropWhile is_space (rev xs))") auto
qed

lemma trim_idem: "trim (trim s) = trim s"
proof -
  let ?t = "dropWhile is_space s"
  have "?t = [] \<or> \<not> is_space (hd ?t)"
    by (metis hd_dropWhile)
  then have "dropWhile is_space (rev (dropWhile is_space (rev ?t))) = rev (dropWhile is_space (rev ?t))"
    by (rule dropWhile_rev_not_space)
  then show ?thesis
    by (simp add: trim_def)
qed

lemma trim_placeholder: "trim ''[This comment has been deleted]'' = ''[This comment has been deleted]''"
  by (simp add: trim_def is_space_def)

text \<open>
  What an accepted edit stores, for a new content that differs from the old one: the
  route's entry with the old content, then the hook's entry with the new one.
\<close>

lemma comments_put_edit:
  assumes "db i = Some c" and "author c = uid usr"
    and "now - createdAt c \<le> 24 * (1000 * 60 * 60)"
    and "1 \<le> length (trim b)" and "length (trim b) \<le> 500"
    and "trim b \<noteq> content c"
  shows "\<exists>c'. fst (comments_put db i usr b now) i = Some c' \<and>
           content c' = trim b \<and> isEdited c' \<and>
           editHistory c' = editHistory c @
             [\<lparr>edit.content = content c, editedAt = now\<rparr>,
              \<lparr>edit.content = trim b, editedAt = now\<rparr>]"
  using assms
  by (auto simp: comments_put_def comment_pre_save_def trim_idem Let_def field_simps)

text \<open>
  Claim C3 (edit-history fidelity) does not hold of the code. The route pushes the
  content from before the edit, and the schema's pre-save hook, seeing the content
  modified, then pushes the content the document holds at save time, which is the new
  one. After an edit from A to B the most recent entry of the edit history records B.
\<close>

theorem edit_history_last_is_new_content:
  "map_option content ex_edited = Some ''Fix this today'' \<and>
   map_option isEdited ex_edited = Some True \<and>
   map_option (map edit.content \<circ> editHistory) ex_edited =
     Some [''Fix this soon'', ''Fix this today''] \<and>
   map_option (edit.content \<circ> last \<circ> editHistory) ex_edited = Some ''Fix this today''"
  by (simp add: ex_edited_def comments_put_def comment_pre_save_def ex_comment_def
        ex_citizen_def trim_def is_space_def Let_def)

section \<open>Soft delete\<close>

text \<open>
  A permitted delete request stores what the pre-save hook makes of the route's three
  assignments. The assignments themselves leave the edit history and the edited flag as
  they were.
\<close>

lemma comments_delete_stores:
  assumes "db i = Some c" and "author c = uid usr \<or> urole usr = ''admin''"
  shows "comments_delete db i usr now =
           (db(i \<mapsto> comment_pre_save False c
                   (c\<lparr>isDeleted := True, deletedAt := Some now,
                      content := ''[This comment has been deleted]''\<rparr>) now),
            Response 200 ''Comment deleted successfully'' None)"
  using assms
  by (auto simp: comments_delete_def trim_placeholder Let_def)

lemma delete_assignments_keep_history:
  "editHistory (c\<lparr>isDeleted := True, deletedAt := Some now,
                  content := ''[This comment has been deleted]''\<rparr>) = editHistory c \<and>
   isEdited (c\<lparr>isDeleted := True, deletedAt := Some now,
               content := ''[This comment has been deleted]''\<rparr>) = isEdited c"
  by simp

text \<open>
  The hook then sees the content modified, unless it already was the placeholder, and
  pushes the placeholder as an edit.
\<close>

lemma comments_delete_history:
  assumes "db i = Some c" and "author c = uid usr \<or> urole usr = ''admin''"
  shows "\<exists>c'. fst (comments_delete db i usr now) i = Some c' \<and>
           isDeleted c' \<and> deletedAt c' = Some now \<and>
           content c' = ''[This comment has been deleted]'' \<and>
           editHistory c' = editHistory c @
             (if content c = ''[This comment has been deleted]'' then []
              else [\<lparr>edit.content = ''[This comment has been deleted]'', editedAt = now\<rparr>])"
  using assms
  by (auto simp: comments_delete_stores comment_pre_save_def)

text \<open>
  Claim C4 (soft delete) does not hold of the code. The route sets the deleted flag, the
  deleted timestamp and the placeholder content and does not touch the edit history, but
  the schema's pre-save hook, seeing the content modified, pushes the placeholder into
  the edit history and sets the edited flag. The comment below was never edited and has
  an empty edit history; after its author deletes it, the history holds one entry, the
  placeholder, and the comment is flagged as edited.
\<close>

theorem soft_delete_logs_placeholder:
  "editHistory ex_comment = [] \<and> isEdited ex_comment = False \<and>
   author ex_comment = uid ex_citizen \<and>
   snd (comments_delete [7 \<mapsto> ex_comment] 7 ex_citizen 5000) =
     Response 200 ''Comment deleted successfully'' None \<and>
   map_option isDeleted (fst (comments_delete [7 \<mapsto> ex_comment] 7 ex_citizen 5000) 7) =
     Some True \<and>
   map_option deletedAt (fst (comments_delete [7 \<mapsto> ex_comment] 7 ex_citizen 5000) 7) =
     Some (Some 5000) \<and>
   map_option content (fst (comments_delete [7 \<mapsto> ex_comment] 7 ex_citizen 5000) 7) =
     Some ''[This comment has been deleted]'' \<and>
   map_option editHistory (fst (comments_delete [7 \<mapsto> ex_comment] 7 ex_citizen 5000) 7) =
     Some [\<lparr>edit.content = ''[This comment has been deleted]'', editedAt = 5000\<rparr>] \<and>
   map_option isEdited (fst (comments_delete [7 \<mapsto> ex_comment] 7 ex_citizen 5000) 7) =
     Some True"
  by (simp add: comments_delete_def comment_pre_save_def trim_placeholder ex_comment_def
        ex_citizen_def Let_def)

section \<open>Edit window\<close>

text \<open>
  Claim C8 (edit window), as amended. For every stored comment created more than 24
  hours (86400000 ms) before the request, an edit request by any user, the author
  included, leaves the collection as it was, so the content, the edit history and the
  edited flag do not change; the response is 403 when the trimmed content has between 1
  and 500 characters, and the 400 of the body validation otherwise.
\<close>

theorem edit_window_rejection:
  assumes "db i = Some c" and "now - createdAt c > 24 * (1000 * 60 * 60)"
  shows "fst (comments_put db i usr b now) = db \<and>
         http_status (snd (comments_put db i usr b now)) =
           (if 1 \<le> length (trim b) \<and> length (trim b) \<le> 500 then 403 else 400)"
  using assms
  by (auto simp: comments_put_def Let_def field_simps)

theorem edit_window_rejection_witness:
  "fst (comments_put [7 \<mapsto> ex_comment] 7 ex_citizen ''Fix this today'' 90000000) =
     [7 \<mapsto> ex_comment] \<and>
   http_status (snd (comments_put [7 \<mapsto> ex_comment] 7 ex_citizen ''Fix this today'' 90000000)) = 403"
  using edit_window_rejection [of "[7 \<mapsto> ex_comment]" 7 ex_comment 90000000 ex_citizen
      "''Fix this today''"]
  by (simp add: ex_comment_def trim_def is_space_def)

text \<open>
  Claim C8 as stated fails where it says that every edit attempt on such a comment is
  answered 403 and not 400: the body validation runs first, so the author's request with
  a blank content on a comment 25 hours old is answered 400.
\<close>

theorem edit_window_counterexample:
  "90000000 - createdAt ex_comment > 24 * (1000 * 60 * 60) \<and>
   author ex_comment = uid ex_citizen \<and>
   http_status (snd (comments_put [7 \<mapsto> ex_comment] 7 ex_citizen ''  '' 90000000)) = 400"
  by (simp add: comments_put_def ex_comment_def ex_citizen_def trim_def is_space_def Let_def)

section \<open>Like toggling\<close>

lemma post_like_found:
  assumes "db i = Some c"
  shows "comments_post_like db i usr now =
     (db(i \<mapsto> toggleLike (uid usr) now c),
      Response 200 (if hasUserLiked c (uid usr) then ''Comment unliked'' else ''Comment liked'')
        (Some \<lparr>likeCount = length (likes (toggleLike (uid usr) now c)),
               hasLiked = \<not> hasUserLiked c (uid usr)\<rparr>))"
  using assms
  by (simp add: comments_post_like_def comment_pre_save_def toggleLike_def hasUserLiked_def Let_def)

lemma toggleLike_flips: "hasUserLiked (toggleLike u now c) u = (\<not> hasUserLiked c u)"
  by (auto simp: toggleLike_def hasUserLiked_def Let_def list_ex_iff)

lemma toggleLike_users:
  "like.user ` set (likes (toggleLike u now c)) =
     (if hasUserLiked c u then like.user ` set (likes c) - {u}
      else insert u (like.user ` set (likes c)))"
  by (auto simp: toggleLike_def hasUserLiked_def Let_def list_ex_iff)

lemma toggleLike_distinct:
  "distinct (map like.user (likes c)) \<Longrightarrow> distinct (map like.user (likes (toggleLike u now c)))"
  by (auto simp: toggleLike_def Let_def list_ex_iff distinct_map_filter)

lemma length_filter_distinct:
  "distinct (map f xs) \<Longrightarrow> list_ex (\<lambda>x. f x = u) xs \<Longrightarrow>
     Suc (length (filter (\<lambda>x. f x \<noteq> u) xs)) = length xs"
proof (induction xs)
  case Nil
  then show ?case by simp
next
  case (Cons a xs)
  show ?case
  proof (cases "f a = u")
    case True
    with Cons.prems(1) have "u \<notin> f ` set xs"
      by auto
    then have "\<not> list_ex (\<lambda>x. f x = u) xs"
      by (auto simp: list_ex_iff)
    then have "filter (\<lambda>x. f x \<noteq> u) xs = xs"
      by (rule filter_absent)
    with True show ?thesis by simp
  next
    case False
    with Cons show ?thesis by simp
  qed
qed

lemma toggleLike_length:
  "distinct (map like.user (likes c)) \<Longrightarrow>
     length (likes (toggleLike u now c)) =
       (if hasUserLiked c u then length (likes c) - 1 else length (likes c) + 1)"
  using length_filter_distinct [of like.user "likes c" u]
  by (auto simp: toggleLike_def hasUserLiked_def Let_def)

lemma toggleLike_twice:
  assumes "distinct (map like.user (likes c))"
  shows "set (map like.user (likes (toggleLike u t2 (toggleLike u t1 c)))) = set (map like.user (likes c))"
    and "length (likes (toggleLike u t2 (toggleLike u t1 c))) = length (likes c)"
proof -
  have "hasUserLiked c u \<longleftrightarrow> u \<in> like.user ` set (likes c)"
    by (auto simp: hasUserLiked_def list_ex_iff)
  then show "set (map like.user (likes (toggleLike u t2 (toggleLike u t1 c)))) = set (map like.user (likes c))"
    by (auto simp: toggleLike_users toggleLike_flips)
  have "hasUserLiked c u \<Longrightarrow> 0 < length (likes c)"
    by (auto simp: hasUserLiked_def list_ex_iff)
  with assms show "length (likes (toggleLike u t2 (toggleLike u t1 c))) = length (likes c)"
    by (auto simp: toggleLike_length toggleLike_distinct toggleLike_flips)
qed

lemma like_calls_found:
  "db i = Some c \<Longrightarrow>
     \<exists>c'. like_calls db i usr ts i = Some c' \<and>
          hasUserLiked c' (uid usr) = (if odd (length ts) then \<not> hasUserLiked c (uid usr)
                                       else hasUserLiked c (uid usr))"
proof (induction ts arbitrary: db c)
  case Nil
  then show ?case by simp
next
  case (Cons now rest)
  let ?c1 = "toggleLike (uid usr) now c"
  let ?db1 = "db(i \<mapsto> ?c1)"
  have "?db1 i = Some ?c1" by simp
  then obtain c' where "like_calls ?db1 i usr rest i = Some c'"
    and "hasUserLiked c' (uid usr) = (if odd (length rest) then \<not> hasUserLiked ?c1 (uid usr)
                                       else hasUserLiked ?c1 (uid usr))"
    using Cons.IH by blast
  with Cons.prems show ?case
    by (auto simp: post_like_found toggleLike_flips)
qed

text \<open>
  Claim C9 (like toggle parity). For every stored comment whose like array holds each
  user at most once, and every user: two like requests in succession give back the set
  of liking users and the like count of before; and after an odd number of like requests the user is in the like array exactly
  when the user was not in it at the start.
\<close>

theorem like_toggle_parity:
  assumes "db i = Some c" and "distinct (map like.user (likes c))"
  shows "(\<exists>c2. like_calls db i usr [t1, t2] i = Some c2 \<and>
            set (map like.user (likes c2)) = set (map like.user (likes c)) \<and>
            length (likes c2) = length (likes c)) \<and>
         (odd (length ts) \<longrightarrow>
            (\<exists>c'. like_calls db i usr ts i = Some c' \<and>
               hasUserLiked c' (uid usr) = (\<not> hasUserLiked c (uid usr))))"
proof
  let ?c1 = "toggleLike (uid usr) t1 c"
  have "like_calls db i usr [t1, t2] i = Some (toggleLike (uid usr) t2 ?c1)"
    using assms(1) by (simp add: post_like_found)
  with toggleLike_twice [OF assms(2)]
  show "\<exists>c2. like_calls db i usr [t1, t2] i = Some c2 \<and>
            set (map like.user (likes c2)) = set (map like.user (likes c)) \<and>
            length (likes c2) = length (likes c)"
    by simp
next
  from assms(1) have "\<exists>c'. like_calls db i usr ts i = Some c' \<and>
          hasUserLiked c' (uid usr) = (if odd (length ts) then \<not> hasUserLiked c (uid usr)
                                       else hasUserLiked c (uid usr))"
    by (rule like_calls_found)
  then show "odd (length ts) \<longrightarrow>
            (\<exists>c'. like_calls db i usr ts i = Some c' \<and>
               hasUserLiked c' (uid usr) = (\<not> hasUserLiked c (uid usr)))"
    by auto
qed

theorem like_toggle_parity_witness:
  "(\<exists>c2. like_calls [7 \<mapsto> ex_liked] 7 ex_citizen [100, 200] 7 = Some c2 \<and>
      set (map like.user (likes c2)) = {2, 3} \<and> length (likes c2) = 2) \<and>
   odd (length [100, 200, 300 :: date]) \<and>
   (\<exists>c'. like_calls [7 \<mapsto> ex_liked] 7 ex_citizen [100, 200, 300] 7 = Some c' \<and>
      \<not> hasUserLiked c' (uid ex_citizen)) \<and>
   hasUserLiked ex_liked (uid ex_citizen)"
  using like_toggle_parity [of "[7 \<mapsto> ex_liked]" 7 ex_liked ex_citizen 100 200 "[100, 200, 300]"]
  by (simp add: ex_liked_def ex_comment_def ex_citizen_def hasUserLiked_def
        comments_post_like_def toggleLike_def comment_pre_save_def Let_def)

section \<open>Community membership\<close>

lemma removeMember_removes: "\<not> isMember (removeMember c u) u"
  by (simp add: removeMember_def isMember_def list_ex_iff)

lemma removeMember_distinct:
  "distinct (map member.user (members c)) \<Longrightarrow>
     distinct (map member.user (members (removeMember c u)))"
  by (simp add: removeMember_def distinct_map_filter)

lemma addMember_isMember: "isMember (addMember c u now) u"
  by (simp add: addMember_def isMember_def)

lemma addMember_distinct:
  "distinct (map member.user (members c)) \<Longrightarrow>
     distinct (map member.user (members (addMember c u now)))"
  by (auto simp: addMember_def isMember_def list_ex_iff)

text \<open>After a join, a second join by the same user is refused and writes nothing.\<close>

lemma join_twice:
  assumes "db i = Some c" and "\<not> isMember c (uid usr)"
  shows "http_status (snd (communities_post_join db users i usr t1)) = 200 \<and>
         communities_post_join (fst (fst (communities_post_join db users i usr t1)))
             (snd (fst (communities_post_join db users i usr t1))) i usr t2 =
           (fst (communities_post_join db users i usr t1),
            Response 400 ''Already a member of this community'' None)"
  using assms
  by (simp add: communities_post_join_def Let_def addMember_def isMember_def)

lemma count_one:
  "distinct (map f xs) \<Longrightarrow> list_ex (\<lambda>x. f x = u) xs \<Longrightarrow> length (filter (\<lambda>x. f x = u) xs) = 1"
  using length_filter_distinct [of f xs u] sum_length_filter_compl [of "\<lambda>x. f x = u" xs]
  by simp

text \<open>
  Claim C6 (creator immutability). For every stored community, a leave request by its
  creator is answered 400 and nothing is written: the community collection and the user
  collection are as before, so the member list has not shrunk and the creator, when in
  it before, is in it after.
\<close>

theorem creator_cannot_leave:
  assumes "db i = Some c" and "uid usr = createdBy c"
  shows "fst (communities_post_leave db users i usr) = (db, users) \<and>
         http_status (snd (communities_post_leave db users i usr)) = 400 \<and>
         payload (snd (communities_post_leave db users i usr)) = None \<and>
         (\<exists>c'. fst (fst (communities_post_leave db users i usr)) i = Some c' \<and>
               members c' = members c \<and>
               isMember c' (createdBy c) = isMember c (createdBy c))"
  using assms
  by (simp add: communities_post_leave_def)

theorem creator_cannot_leave_witness:
  "fst (communities_post_leave [4 \<mapsto> ex_community] [9 \<mapsto> [4]] 4 ex_admin) =
     ([4 \<mapsto> ex_community], [9 \<mapsto> [4]]) \<and>
   http_status (snd (communities_post_leave [4 \<mapsto> ex_community] [9 \<mapsto> [4]] 4 ex_admin)) = 400 \<and>
   payload (snd (communities_post_leave [4 \<mapsto> ex_community] [9 \<mapsto> [4]] 4 ex_admin)) = None \<and>
   (\<exists>c'. fst (fst (communities_post_leave [4 \<mapsto> ex_community] [9 \<mapsto> [4]] 4 ex_admin)) 4 = Some c' \<and>
         members c' = members ex_community \<and> isMember c' 9)"
  using creator_cannot_leave [of "[4 \<mapsto> ex_community]" 4 ex_community ex_admin "[9 \<mapsto> [4]]"]
  by (simp add: ex_community_def ex_admin_def isMember_def)

text \<open>
  Claim C7 (membership uniqueness, \<open>addMember\<close> idempotence). For every community whose
  member list holds each user at most once, and every user: the second \<open>addMember\<close>
  with that user changes nothing, after the two calls the member list holds exactly one
  record of the user, and it still holds each user at most once.
\<close>

theorem addMember_twice:
  assumes "distinct (map member.user (members c))"
  shows "addMember (addMember c u t1) u t2 = addMember c u t1 \<and>
         length (filter (\<lambda>m. member.user m = u) (members (addMember (addMember c u t1) u t2))) = 1 \<and>
         distinct (map member.user (members (addMember (addMember c u t1) u t2)))"
proof -
  let ?c1 = "addMember c u t1"
  have same: "addMember ?c1 u t2 = ?c1"
    using addMember_isMember [of c u t1] by (simp add: addMember_def [of ?c1])
  have d: "distinct (map member.user (members ?c1))"
    using assms by (rule addMember_distinct)
  have "list_ex (\<lambda>m. member.user m = u) (members ?c1)"
    using addMember_isMember [of c u t1] by (simp add: isMember_def)
  with d have "length (filter (\<lambda>m. member.user m = u) (members ?c1)) = 1"
    by (rule count_one)
  with same d show ?thesis by simp
qed

theorem addMember_twice_witness:
  "addMember (addMember ex_community 3 100) 3 200 = addMember ex_community 3 100 \<and>
   length (filter (\<lambda>m. member.user m = 3) (members (addMember (addMember ex_community 3 100) 3 200))) = 1 \<and>
   map member.user (members (addMember (addMember ex_community 3 100) 3 200)) = [9, 2, 3]"
  using addMember_twice [of ex_community 3 100 200]
  by (simp add: ex_community_def addMember_def isMember_def)

end
